theory Spec2Isabelle
  imports Complex_Main "HOL-Library.Word"
begin

unbundle bit_operations_syntax

section \<open>JavaScript numbers and Node buffers\<close>

text \<open>
  The integers that the program handles stay far below \<open>2^53\<close>, so a JavaScript number
  holding an integer is an \<open>int\<close>. The bitwise operators of JavaScript work on the
  32-bit two's complement reading of their operands (\<open>ToInt32\<close>); \<open>>>\<close> is the
  arithmetic shift, which on \<open>int\<close> is \<open>drop_bit\<close>. A \<open>Buffer\<close> is a list of bytes;
  a store into it keeps the value modulo 256, which is \<open>word_of_int\<close>.
\<close>

type_synonym byte = "8 word"
type_synonym buffer = "byte list"

datatype error = RangeError

definition toInt32 :: "int \<Rightarrow> int" where
  "toInt32 x = (x + 2147483648) mod 4294967296 - 2147483648"

definition toInt16 :: "int \<Rightarrow> int" where
  "toInt16 x = (x + 32768) mod 65536 - 32768"

text \<open>
  \<open>buf.readInt16LE(offset)\<close>: Node throws a RangeError unless \<open>offset\<close> is an integer
  with \<open>0 \<le> offset\<close> and \<open>offset + 2 \<le> buf.length\<close>. The offset is a JavaScript
  number, here a rational.
\<close>

definition readInt16LE :: "buffer \<Rightarrow> rat \<Rightarrow> error + int" where
  "readInt16LE buf offset =
     (if of_int \<lfloor>offset\<rfloor> \<noteq> offset \<or> offset < 0 \<or> rat_of_nat (length buf) < offset + 2
      then Inl RangeError
      else let k = nat \<lfloor>offset\<rfloor> in
        Inr (toInt16 (uint (buf ! k) + 256 * uint (buf ! (k + 1)))))"

text \<open>
  \<open>buf.writeInt16LE(value, offset)\<close>: Node throws a RangeError when the value is outside
  \<open>[-32768, 32767]\<close> or the two bytes do not fit at \<open>offset\<close>.
\<close>

definition writeInt16LE :: "buffer \<Rightarrow> int \<Rightarrow> nat \<Rightarrow> error + buffer" where
  "writeInt16LE buf v offset =
     (if v < -32768 \<or> 32767 < v \<or> length buf < offset + 2
      then Inl RangeError
      else Inr (buf[offset := word_of_int v, offset + 1 := word_of_int (drop_bit 8 v)]))"

section \<open>audio-format-conversion.js\<close>

subsection \<open>The decoding table\<close>

text \<open>One round of the loop of \<open>initMulawTable\<close>: the value stored at index \<open>i\<close>.\<close>

definition mulawTableEntry :: "int \<Rightarrow> int" where
  "mulawTableEntry i =
     (let mulaw = i XOR 255;
          sign = (if mulaw AND 128 \<noteq> 0 then -1 else 1);
          exponent = drop_bit 4 mulaw AND 7;
          mantissa = mulaw AND 15;
          sample = push_bit (nat (exponent + 3)) mantissa;
          sample = sample + 132;
          sample = sample * sign
      in toInt16 sample)"

definition MULAW_TO_LINEAR_TABLE :: "int list" where
  "MULAW_TO_LINEAR_TABLE = map (\<lambda>i. mulawTableEntry (int i)) [0..<256]"

text \<open>
  \<open>MULAW_TO_LINEAR_TABLE[i]\<close>: an index outside the \<open>Int16Array\<close> reads
  \<open>undefined\<close>, here \<open>None\<close>.
\<close>

definition tableAt :: "int \<Rightarrow> int option" where
  "tableAt i = (if 0 \<le> i \<and> i < 256 then Some (MULAW_TO_LINEAR_TABLE ! nat i) else None)"

subsection \<open>The encoder of one sample\<close>

text \<open>
  The search loop of \<open>linearToMulawSample\<close>, from round \<open>i\<close> on: the first \<open>i < 8\<close>
  with \<open>sample \<le> (0xFFF >> i)\<close>; \<open>exponent\<close> keeps its initial 0 when there is none.
\<close>

function findExponent :: "int \<Rightarrow> nat \<Rightarrow> int" where
  "findExponent sample i =
     (if i < 8
      then (if sample \<le> drop_bit i 4095 then int i else findExponent sample (i + 1))
      else 0)"
  by pat_completeness auto
termination
  by (relation "measure (\<lambda>(sample, i). 8 - i)") auto

definition linearToMulawSample :: "int \<Rightarrow> int" where
  "linearToMulawSample sample0 =
     (let sample = max (-32768) (min 32767 sample0);
          sign = (if sample < 0 then 128 else 0);
          sample = (if sample < 0 then - sample else sample);
          sample = sample + 132;
          exponent = findExponent sample 0;
          mantissa = (if exponent = 0 then drop_bit 4 sample
                      else drop_bit (nat (exponent + 3)) sample AND 15);
          mulaw = sign OR push_bit 4 exponent OR mantissa
      in mulaw XOR 255)"

subsection \<open>Resampling\<close>

text \<open>
  The arithmetic of \<open>resampleAudio\<close> is on JavaScript numbers, which are doubles. The
  model computes it on rationals: sample rates are natural numbers, \<open>inputSamples\<close> is
  half the byte length, and products, quotients and sums are exact, without the
  rounding error of a double. \<open>Math.round x\<close> is \<open>\<lfloor>x + 1/2\<rfloor>\<close>.
\<close>

definition mathRound :: "rat \<Rightarrow> int" where
  "mathRound x = \<lfloor>x + 1 / 2\<rfloor>"

text \<open>The body of the loop of \<open>resampleAudio\<close> for the output sample \<open>i\<close>.\<close>

definition resampleStep :: "buffer \<Rightarrow> rat \<Rightarrow> nat \<Rightarrow> nat \<Rightarrow> nat \<Rightarrow> buffer \<Rightarrow> error + buffer" where
  "resampleStep audioData inputSamples inputSampleRate outputSampleRate i outputData =
     (let inputIndex = rat_of_nat i * rat_of_nat inputSampleRate / rat_of_nat outputSampleRate;
          inputIndexFloor = rat_of_int \<lfloor>inputIndex\<rfloor>;
          inputIndexCeil = min (inputSamples - 1) (rat_of_int \<lceil>inputIndex\<rceil>);
          t = inputIndex - inputIndexFloor
      in if inputIndexFloor = inputIndexCeil
         then (case readInt16LE audioData (inputIndexFloor * 2) of
                 Inl e \<Rightarrow> Inl e
               | Inr sample \<Rightarrow> writeInt16LE outputData sample (i * 2))
         else (case readInt16LE audioData (inputIndexFloor * 2) of
                 Inl e \<Rightarrow> Inl e
               | Inr sample1 \<Rightarrow>
                   (case readInt16LE audioData (inputIndexCeil * 2) of
                      Inl e \<Rightarrow> Inl e
                    | Inr sample2 \<Rightarrow>
                        writeInt16LE outputData
                          (mathRound (rat_of_int sample1 * (1 - t) + rat_of_int sample2 * t))
                          (i * 2))))"

fun resampleLoop :: "buffer \<Rightarrow> rat \<Rightarrow> nat \<Rightarrow> nat \<Rightarrow> nat list \<Rightarrow> buffer \<Rightarrow> error + buffer" where
  "resampleLoop audioData inputSamples inputSampleRate outputSampleRate [] outputData =
     Inr outputData"
| "resampleLoop audioData inputSamples inputSampleRate outputSampleRate (i # rest) outputData =
     (case resampleStep audioData inputSamples inputSampleRate outputSampleRate i outputData of
        Inl e \<Rightarrow> Inl e
      | Inr outputData' \<Rightarrow>
          resampleLoop audioData inputSamples inputSampleRate outputSampleRate rest outputData')"

text \<open>
  With \<open>inputSampleRate = 0\<close> (and a different output rate) the quotient is
  \<open>Infinity\<close> or \<open>NaN\<close>, and \<open>Buffer.alloc\<close> throws on such a size.
\<close>

definition resampleAudio :: "buffer \<Rightarrow> nat \<Rightarrow> nat \<Rightarrow> error + buffer" where
  "resampleAudio audioData inputSampleRate outputSampleRate =
     (if inputSampleRate = outputSampleRate then Inr audioData
      else if inputSampleRate = 0 then Inl RangeError
      else
        let inputSamples = rat_of_nat (length audioData) / 2;
            outputSamples =
              nat \<lceil>inputSamples * rat_of_nat outputSampleRate / rat_of_nat inputSampleRate\<rceil>
        in resampleLoop audioData inputSamples inputSampleRate outputSampleRate
             [0..<outputSamples] (replicate (outputSamples * 2) 0))"

subsection \<open>Buffers of samples\<close>

fun mulawToLinearLoop :: "buffer \<Rightarrow> nat list \<Rightarrow> buffer \<Rightarrow> error + buffer" where
  "mulawToLinearLoop mulawData [] linearData = Inr linearData"
| "mulawToLinearLoop mulawData (i # rest) linearData =
     (case tableAt (uint (mulawData ! i)) of
        None \<Rightarrow> Inl RangeError
      | Some sample \<Rightarrow>
          (case writeInt16LE linearData sample (i * 2) of
             Inl e \<Rightarrow> Inl e
           | Inr linearData' \<Rightarrow> mulawToLinearLoop mulawData rest linearData'))"

text \<open>
  \<open>mulawToLinear(mulawData, {inputSampleRate, outputSampleRate})\<close>; the defaults of the
  options are 8000 and 16000.
\<close>

definition mulawToLinear :: "buffer \<Rightarrow> nat \<Rightarrow> nat \<Rightarrow> error + buffer" where
  "mulawToLinear mulawData inputSampleRate outputSampleRate =
     (case mulawToLinearLoop mulawData [0..<length mulawData]
             (replicate (length mulawData * 2) 0) of
        Inl e \<Rightarrow> Inl e
      | Inr linearData \<Rightarrow>
          if inputSampleRate = outputSampleRate then Inr linearData
          else resampleAudio linearData inputSampleRate outputSampleRate)"

fun linearToMulawLoop :: "buffer \<Rightarrow> nat list \<Rightarrow> buffer \<Rightarrow> error + buffer" where
  "linearToMulawLoop resampledData [] mulawData = Inr mulawData"
| "linearToMulawLoop resampledData (i # rest) mulawData =
     (case readInt16LE resampledData (rat_of_nat (i * 2)) of
        Inl e \<Rightarrow> Inl e
      | Inr sample \<Rightarrow>
          linearToMulawLoop resampledData rest
            (mulawData[i := word_of_int (linearToMulawSample sample)]))"

text \<open>
  \<open>linearToMulaw(linearData, {inputSampleRate, outputSampleRate})\<close>; the defaults of the
  options are 16000 and 8000. \<open>Buffer.alloc(resampledData.length / 2)\<close> rounds a
  fractional size down.
\<close>

definition linearToMulaw :: "buffer \<Rightarrow> nat \<Rightarrow> nat \<Rightarrow> error + buffer" where
  "linearToMulaw linearData inputSampleRate outputSampleRate =
     (case (if inputSampleRate \<noteq> outputSampleRate
            then resampleAudio linearData inputSampleRate outputSampleRate
            else Inr linearData) of
        Inl e \<Rightarrow> Inl e
      | Inr resampledData \<Rightarrow>
          linearToMulawLoop resampledData [0..<length resampledData div 2]
            (replicate (length resampledData div 2) 0))"

section \<open>rtp-server.js\<close>

record rinfo =
  address :: string
  port :: nat

record client =
  clientAddress :: string
  clientPort :: nat
  clientTimestamp :: int
  clientPackets :: nat

record stats =
  packetsReceived :: nat
  packetsSent :: nat
  bytesReceived :: nat
  bytesSent :: nat

text \<open>
  The fields of an \<open>RtpServer\<close> that its methods read and write. \<open>socket\<close> says
  whether \<open>this.socket\<close> is set. A client id is the string \<open>address:port\<close>, here the
  pair.
\<close>

record RtpServer =
  payloadType :: int
  socket :: bool
  isRunning :: bool
  clients :: "string \<times> nat \<rightharpoonup> client"
  serverStats :: stats
  sequenceNumber :: int
  timestamp :: int
  ssrc :: int

datatype rtpEvent =
    ClientConnected string nat
  | AudioData "string \<times> nat" int int int int buffer
    \<comment> \<open>clientId, payloadType, timestamp, sequenceNumber, marker, data\<close>

definition byteAt :: "buffer \<Rightarrow> nat \<Rightarrow> int" where
  "byteAt packet k = uint (packet ! k)"

text \<open>\<open>handleRtpPacket(packet, rinfo)\<close> at the time \<open>now\<close>: the events emitted, in order, and the server afterwards.\<close>

definition handleRtpPacket :: "buffer \<Rightarrow> rinfo \<Rightarrow> int \<Rightarrow> RtpServer \<Rightarrow> rtpEvent list \<times> RtpServer" where
  "handleRtpPacket packet ri now srv =
     (if length packet < 12 then ([], srv)
      else
        let st = serverStats srv;
            st = st\<lparr>packetsReceived := packetsReceived st + 1,
                    bytesReceived := bytesReceived st + length packet\<rparr>;
            clientId = (address ri, port ri);
            known = (clients srv clientId \<noteq> None);
            c = (case clients srv clientId of
                   None \<Rightarrow> \<lparr>clientAddress = address ri, clientPort = port ri,
                             clientTimestamp = now, clientPackets = 0\<rparr>
                 | Some c \<Rightarrow> c);
            c = c\<lparr>clientTimestamp := now, clientPackets := clientPackets c + 1\<rparr>;
            csrcCount = byteAt packet 0 AND 15;
            marker = drop_bit 7 (byteAt packet 1) AND 1;
            pt = byteAt packet 1 AND 127;
            seqNo = push_bit 8 (byteAt packet 2) OR byteAt packet 3;
            ts = toInt32 (push_bit 24 (byteAt packet 4) OR push_bit 16 (byteAt packet 5)
                          OR push_bit 8 (byteAt packet 6) OR byteAt packet 7);
            headerLength = 12 + csrcCount * 4;
            payload = drop (nat headerLength) packet
        in ((if known then [] else [ClientConnected (address ri) (port ri)])
              @ [AudioData clientId pt ts seqNo marker payload],
            srv\<lparr>serverStats := st, clients := (clients srv)(clientId \<mapsto> c)\<rparr>))"

text \<open>
  \<open>sendAudioData(audioData, target)\<close>: the value returned, the datagram handed to the
  socket (if any) and the server afterwards. A byte of the header is an expression of
  32-bit operators stored into the packet.
\<close>

definition headerByte :: "int \<Rightarrow> nat \<Rightarrow> byte" where
  "headerByte v shift = word_of_int (drop_bit shift (toInt32 v) AND 255)"

definition sendAudioData :: "buffer \<Rightarrow> rinfo option \<Rightarrow> RtpServer \<Rightarrow> bool \<times> buffer option \<times> RtpServer" where
  "sendAudioData audioData target srv =
     (if \<not> isRunning srv \<or> \<not> socket srv then (False, None, srv)
      else case target of
        None \<Rightarrow> (False, None, srv)
      | Some tg \<Rightarrow>
          if address tg = [] \<or> port tg = 0 then (False, None, srv)
          else
            let packet =
                  [128, word_of_int (payloadType srv),
                   headerByte (sequenceNumber srv) 8, headerByte (sequenceNumber srv) 0,
                   headerByte (timestamp srv) 24, headerByte (timestamp srv) 16,
                   headerByte (timestamp srv) 8, headerByte (timestamp srv) 0,
                   headerByte (ssrc srv) 24, headerByte (ssrc srv) 16,
                   headerByte (ssrc srv) 8, headerByte (ssrc srv) 0] @ audioData
            in (True, Some packet,
                srv\<lparr>sequenceNumber := (sequenceNumber srv + 1) mod 65536,
                    timestamp := (timestamp srv + int (length audioData)) mod 4294967295\<rparr>))"

text \<open>
  The callback of \<open>socket.send\<close> runs later, with the error of the send if there was
  one, and counts the datagram of \<open>n\<close> bytes when there was none.
\<close>

definition onSendComplete :: "bool \<Rightarrow> nat \<Rightarrow> RtpServer \<Rightarrow> RtpServer" where
  "onSendComplete err n srv =
     (if err then srv
      else srv\<lparr>serverStats := (serverStats srv)\<lparr>packetsSent := packetsSent (serverStats srv) + 1,
                                                bytesSent := bytesSent (serverStats srv) + n\<rparr>\<rparr>)"

section \<open>asterisk-bridge.js: the state of one call\<close>

datatype readyState = CONNECTING | OPEN | CLOSING | CLOSED

text \<open>
  The fields of \<open>CallState\<close> that the handlers below read and write. \<open>serverWs\<close> is
  \<open>None\<close> for \<open>null\<close> and otherwise the \<open>readyState\<close> of the socket it holds.
\<close>

record CallState =
  channelId :: string
  serverWs :: "readyState option"
  isConnected :: bool
  isAgentReady :: bool
  playbackQueue :: "string list"
  isPlaying :: bool
  lastPongTime :: int
  totalReceived :: nat
  totalSent :: nat

datatype outMessage =
    Ping string int
  | Init string
  | ActionResponse string string

text \<open>What a handler does to the world outside the \<open>CallState\<close>, in order.\<close>

datatype effect =
    WsSendText outMessage
  | WsSendBinary buffer
  | WsClose
  | WsConnect
  | RestartPingInterval
  | ReconnectLater
  | StartStreaming
  | WriteFile string buffer
  | ChannelPlay string string  \<comment> \<open>the prefix of the media and the file\<close>
  | Unlink string
  | RetryPlayNext

subsection \<open>Audio from the RTP server to the voice server\<close>

definition sendAudioToServer :: "buffer \<Rightarrow> CallState \<Rightarrow> CallState \<times> effect list" where
  "sendAudioToServer audioData st =
     (if serverWs st \<noteq> Some OPEN then (st, [])
      else if audioData = [] then (st, [])
      else (st\<lparr>totalSent := totalSent st + length audioData\<rparr>, [WsSendBinary audioData]))"

definition convertFromMulaw :: "buffer \<Rightarrow> buffer" where
  "convertFromMulaw mulawData = mulawData"

text \<open>The listener of \<open>audio-data\<close> that \<open>setupExternalMedia\<close> registers; \<open>payload\<close> is \<open>data.data\<close>.\<close>

definition onAudioData :: "buffer \<Rightarrow> CallState \<Rightarrow> CallState \<times> effect list" where
  "onAudioData payload st =
     (if isConnected st \<and> isAgentReady st
      then sendAudioToServer (convertFromMulaw payload) st
      else (st, []))"

subsection \<open>Heartbeat and reconnection\<close>

definition connectToServer :: "CallState \<Rightarrow> CallState \<times> effect list" where
  "connectToServer st = (st\<lparr>serverWs := Some CONNECTING\<rparr>, [WsConnect])"

definition reconnectToServer :: "CallState \<Rightarrow> CallState \<times> effect list" where
  "reconnectToServer st =
     (let closing = (case serverWs st of None \<Rightarrow> [] | Some ws \<Rightarrow> [WsClose]);
          st = st\<lparr>serverWs := None\<rparr>;
          st = st\<lparr>isConnected := False, isAgentReady := False\<rparr>;
          (st, es) = connectToServer st
      in (st, closing @ es))"

text \<open>One round of the interval that \<open>startPingPong\<close> sets, at the time \<open>now\<close>.\<close>

definition pingTick :: "int \<Rightarrow> CallState \<Rightarrow> CallState \<times> effect list" where
  "pingTick now st =
     (if serverWs st \<noteq> Some OPEN then (st, [])
      else
        let ping = WsSendText (Ping (channelId st) now);
            timeSinceLastPong = now - lastPongTime st
        in if timeSinceLastPong > 15000
           then (let (st', es) = reconnectToServer st in (st', ping # es))
           else (st, [ping]))"

text \<open>The handlers of \<open>open\<close> and \<open>close\<close> of the socket, and the timer that \<open>close\<close> sets.\<close>

definition onOpen :: "CallState \<Rightarrow> CallState \<times> effect list" where
  "onOpen st =
     (st\<lparr>serverWs := Some OPEN, isConnected := True\<rparr>,
      [RestartPingInterval, WsSendText (Init (channelId st))])"

definition onClose :: "int \<Rightarrow> CallState \<Rightarrow> CallState \<times> effect list" where
  "onClose code st =
     (st\<lparr>isConnected := False\<rparr>, if code \<noteq> 1000 then [ReconnectLater] else [])"

definition onReconnectTimer :: "CallState \<Rightarrow> CallState \<times> effect list" where
  "onReconnectTimer st = (if \<not> isConnected st then reconnectToServer st else (st, []))"

subsection \<open>JSON messages from the voice server\<close>

text \<open>
  A parsed message, by its \<open>type\<close>; an action is its \<open>function_call_id\<close> (empty when
  absent) and its \<open>function_name\<close>.
\<close>

datatype jsonMessage =
    StatusMsg string
  | TranscriptMsg
  | ActionsMsg "(string \<times> string) list"
  | ErrorMsg
  | PongMsg
  | AudioCompleteMsg
  | OtherMsg

definition sendActionResponse :: "string \<Rightarrow> string \<Rightarrow> CallState \<Rightarrow> effect list" where
  "sendActionResponse functionCallId functionName st =
     (if serverWs st \<noteq> Some OPEN then []
      else [WsSendText (ActionResponse functionCallId functionName)])"

definition handleJsonMessage :: "jsonMessage \<Rightarrow> int \<Rightarrow> CallState \<Rightarrow> CallState \<times> effect list" where
  "handleJsonMessage message now st =
     (case message of
        StatusMsg status \<Rightarrow>
          if status = ''ready'' then (st\<lparr>isAgentReady := True\<rparr>, [StartStreaming]) else (st, [])
      | ActionsMsg actions \<Rightarrow>
          (st, concat (map (\<lambda>(functionCallId, functionName).
                 if functionCallId \<noteq> [] then sendActionResponse functionCallId functionName st
                 else []) actions))
      | PongMsg \<Rightarrow> (st\<lparr>lastPongTime := now\<rparr>, [])
      | _ \<Rightarrow> (st, []))"

subsection \<open>The playback queue\<close>

definition convertResponseAudioFormat :: "buffer \<Rightarrow> buffer" where
  "convertResponseAudioFormat audioData =
     (if length audioData > 44 \<and> audioData ! 0 = 82 \<and> audioData ! 1 = 73
         \<and> audioData ! 2 = 70 \<and> audioData ! 3 = 70
      then drop 44 audioData
      else audioData)"

text \<open>
  \<open>playNextInQueue\<close>. The answer of the telephony side to \<open>channel.play\<close> is the
  parameter \<open>play\<close>: whether the call with that media resolves. The method tries the
  prefix \<open>sound:\<close>, then \<open>file:\<close>; when both are rejected it clears the flag, deletes the
  file and sets a timer of 100 ms for the next call of itself.
\<close>

definition playNextInQueue :: "(string \<Rightarrow> bool) \<Rightarrow> CallState \<Rightarrow> CallState \<times> effect list" where
  "playNextInQueue play st =
     (case playbackQueue st of
        [] \<Rightarrow> (st\<lparr>isPlaying := False\<rparr>, [])
      | audioFile # rest \<Rightarrow>
          let st = st\<lparr>isPlaying := True, playbackQueue := rest\<rparr>
          in if play (''sound:'' @ audioFile) then (st, [ChannelPlay ''sound:'' audioFile])
             else if play (''file:'' @ audioFile) then (st, [ChannelPlay ''file:'' audioFile])
             else (st\<lparr>isPlaying := False\<rparr>, [Unlink audioFile, RetryPlayNext]))"

text \<open>\<open>queueAudioPlayback(audioData)\<close>; \<open>tempFile\<close> is the name it makes from the channel and the clock.\<close>

definition queueAudioPlayback :: "(string \<Rightarrow> bool) \<Rightarrow> string \<Rightarrow> buffer \<Rightarrow> CallState \<Rightarrow> CallState \<times> effect list" where
  "queueAudioPlayback play tempFile audioData st =
     (if audioData = [] then (st, [])
      else
        let convertedAudio = convertResponseAudioFormat audioData;
            st = st\<lparr>playbackQueue := playbackQueue st @ [tempFile]\<rparr>
        in if \<not> isPlaying st
           then (let (st', es) = playNextInQueue play st
                 in (st', WriteFile tempFile convertedAudio # es))
           else (st, [WriteFile tempFile convertedAudio]))"

text \<open>The handler of \<open>PlaybackFinished\<close> for the file played, and the timer set after a failure.\<close>

definition onPlaybackFinished :: "(string \<Rightarrow> bool) \<Rightarrow> string \<Rightarrow> CallState \<Rightarrow> CallState \<times> effect list" where
  "onPlaybackFinished play audioFile st =
     (let (st', es) = playNextInQueue play st in (st', Unlink audioFile # es))"

definition onRetryTimer :: "(string \<Rightarrow> bool) \<Rightarrow> CallState \<Rightarrow> CallState \<times> effect list" where
  "onRetryTimer play st = playNextInQueue play st"

subsection \<open>Messages on the socket to the voice server\<close>

fun isLikelyTextLoop :: "buffer \<Rightarrow> nat \<Rightarrow> bool" where
  "isLikelyTextLoop [] n = True"
| "isLikelyTextLoop (b # rest) n =
     (if n = 0 then True
      else if (b < 32 \<and> b \<noteq> 9 \<and> b \<noteq> 10 \<and> b \<noteq> 13) \<or> b > 126 then False
      else isLikelyTextLoop rest (n - 1))"

definition isLikelyText :: "buffer \<Rightarrow> bool" where
  "isLikelyText buf = isLikelyTextLoop buf 100"

text \<open>
  What arrives on a socket: a \<open>Buffer\<close>, or a string, given by its bytes. \<open>parse\<close>
  stands for \<open>JSON.parse\<close> of the text of the bytes, \<open>None\<close> when it throws.
\<close>

datatype wsData = Binary buffer | Text buffer

definition onServerMessage ::
  "(buffer \<Rightarrow> jsonMessage option) \<Rightarrow> (string \<Rightarrow> bool) \<Rightarrow> string \<Rightarrow> int \<Rightarrow> wsData \<Rightarrow> CallState
     \<Rightarrow> CallState \<times> effect list" where
  "onServerMessage parse play tempFile now msg st =
     (case msg of
        Binary buf \<Rightarrow>
          if isLikelyText buf
          then (case parse buf of
                  Some jsonMessage \<Rightarrow> handleJsonMessage jsonMessage now st
                | None \<Rightarrow> (st, []))
          else queueAudioPlayback play tempFile buf st
      | Text txt \<Rightarrow>
          (case parse txt of
             Some jsonMessage \<Rightarrow> handleJsonMessage jsonMessage now st
           | None \<Rightarrow> (st, [])))"

section \<open>server.js: messages from a client of the voice server\<close>

text \<open>The variables of one connection that the handler of \<open>message\<close> reads and writes.\<close>

record connection =
  isAsteriskBridge :: bool
  deepgramConnection :: bool
  isConfigured :: bool
  connChannelId :: "string option"

text \<open>A parsed command: its \<open>type\<close> and its \<open>channelId\<close> (empty when absent).\<close>

record command =
  commandType :: string
  commandChannelId :: string

datatype serverEffect =
    HandleActionResponse command
  | HandleCommand command
  | LogParseError
  | TrackAudio nat
  | DeepgramSend buffer
  | SendNotReady

definition storeChannelId :: "command \<Rightarrow> connection \<Rightarrow> connection" where
  "storeChannelId cmd c =
     (if isAsteriskBridge c \<and> commandChannelId cmd \<noteq> []
      then c\<lparr>connChannelId := Some (commandChannelId cmd)\<rparr> else c)"

definition onClientMessage ::
  "(buffer \<Rightarrow> command option) \<Rightarrow> wsData \<Rightarrow> connection \<Rightarrow> connection \<times> serverEffect list" where
  "onClientMessage parse msg c =
     (case msg of
        Binary message \<Rightarrow>
          if (case message of [] \<Rightarrow> False | firstByte # rest \<Rightarrow> firstByte = 123)
          then (case parse message of
                  None \<Rightarrow> (c, [LogParseError])
                | Some cmd \<Rightarrow>
                    (storeChannelId cmd c,
                     if commandType cmd = ''action_response'' then [HandleActionResponse cmd]
                     else [HandleCommand cmd]))
          else (c, TrackAudio (length message)
                   # (if deepgramConnection c \<and> isConfigured c then [DeepgramSend message]
                      else [SendNotReady]))
      | Text message \<Rightarrow>
          (case parse message of
             None \<Rightarrow> (c, [LogParseError])
           | Some cmd \<Rightarrow> (storeChannelId cmd c, [HandleCommand cmd])))"

section \<open>Reading samples\<close>

text \<open>The 16-bit sample number \<open>i\<close> of a buffer of little-endian samples.\<close>

definition int16At :: "buffer \<Rightarrow> nat \<Rightarrow> int" where
  "int16At buf i = toInt16 (uint (buf ! (2 * i)) + 256 * uint (buf ! (2 * i + 1)))"

section \<open>Runs of events\<close>

text \<open>
  The handlers of one call run one at a time, in the order in which the events arrive.
  A run applies them in that order and collects what they do. Each handler is run to
  its end before the next event: a call that a handler awaits (\<open>channel.play\<close>) is
  taken to settle before the next event arrives.
\<close>

datatype callEvent =
    Tick int
  | WsOpened
  | WsClosed int
  | ReconnectTimer
  | Message jsonMessage int
  | RtpAudio buffer

definition callStep :: "callEvent \<Rightarrow> CallState \<Rightarrow> CallState \<times> effect list" where
  "callStep ev st =
     (case ev of
        Tick now \<Rightarrow> pingTick now st
      | WsOpened \<Rightarrow> onOpen st
      | WsClosed code \<Rightarrow> onClose code st
      | ReconnectTimer \<Rightarrow> onReconnectTimer st
      | Message m now \<Rightarrow> handleJsonMessage m now st
      | RtpAudio payload \<Rightarrow> onAudioData payload st)"

fun runCall :: "callEvent list \<Rightarrow> CallState \<Rightarrow> CallState \<times> effect list" where
  "runCall [] st = (st, [])"
| "runCall (ev # evs) st =
     (let (st', es) = callStep ev st; (st'', es') = runCall evs st' in (st'', es @ es'))"

text \<open>
  Playback: besides the \<open>CallState\<close>, the world holds the files that the channel is
  playing (started by \<open>channel.play\<close>, not yet finished), the files started so far in
  the order of their start, and the number of retry timers that are set. An event that
  cannot happen in a world (the end of a playback that is not running, a timer that is
  not set) gives \<open>None\<close>.
\<close>

record playbackWorld =
  call :: CallState
  nowPlaying :: "string list"
  started :: "string list"
  retryTimers :: nat

datatype playbackEvent =
    AudioChunk string buffer
  | PlaybackFinished string
  | RetryTimerFired

fun absorb :: "effect list \<Rightarrow> playbackWorld \<Rightarrow> playbackWorld" where
  "absorb [] w = w"
| "absorb (ChannelPlay pre audioFile # es) w =
     absorb es (w\<lparr>nowPlaying := nowPlaying w @ [audioFile], started := started w @ [audioFile]\<rparr>)"
| "absorb (RetryPlayNext # es) w = absorb es (w\<lparr>retryTimers := retryTimers w + 1\<rparr>)"
| "absorb (e # es) w = absorb es w"

definition playbackStep :: "(string \<Rightarrow> bool) \<Rightarrow> playbackEvent \<Rightarrow> playbackWorld \<Rightarrow> playbackWorld option" where
  "playbackStep play ev w =
     (case ev of
        AudioChunk tempFile audioData \<Rightarrow>
          (let (st, es) = queueAudioPlayback play tempFile audioData (call w)
           in Some (absorb es (w\<lparr>call := st\<rparr>)))
      | PlaybackFinished audioFile \<Rightarrow>
          if audioFile \<in> set (nowPlaying w)
          then (let (st, es) = onPlaybackFinished play audioFile (call w)
                in Some (absorb es (w\<lparr>call := st, nowPlaying := remove1 audioFile (nowPlaying w)\<rparr>)))
          else None
      | RetryTimerFired \<Rightarrow>
          if 0 < retryTimers w
          then (let (st, es) = onRetryTimer play (call w)
                in Some (absorb es (w\<lparr>call := st, retryTimers := retryTimers w - 1\<rparr>)))
          else None)"

fun runPlayback :: "(string \<Rightarrow> bool) \<Rightarrow> playbackEvent list \<Rightarrow> playbackWorld \<Rightarrow> playbackWorld option" where
  "runPlayback play [] w = Some w"
| "runPlayback play (ev # evs) w =
     (case playbackStep play ev w of None \<Rightarrow> None | Some w' \<Rightarrow> runPlayback play evs w')"

text \<open>
  The files that a run of events brings, in the order of their arrival; a chunk without
  data brings none. A file is playable when the telephony side accepts it under one of
  the two prefixes.
\<close>

fun arrivals :: "playbackEvent list \<Rightarrow> string list" where
  "arrivals [] = []"
| "arrivals (AudioChunk tempFile audioData # evs) =
     (if audioData = [] then arrivals evs else tempFile # arrivals evs)"
| "arrivals (ev # evs) = arrivals evs"

definition playable :: "(string \<Rightarrow> bool) \<Rightarrow> string \<Rightarrow> bool" where
  "playable play audioFile \<longleftrightarrow> play (''sound:'' @ audioFile) \<or> play (''file:'' @ audioFile)"

section \<open>States to run from\<close>

text \<open>
  A call in its steady state: the socket is open, \<open>connected\<close> and \<open>agentReady\<close> are
  set, nothing is queued or playing, the last pong came at \<open>lastPong\<close>.
\<close>

definition activeCall :: "int \<Rightarrow> CallState" where
  "activeCall lastPong =
     \<lparr>channelId = ''ch-1'', serverWs = Some OPEN, isConnected = True, isAgentReady = True,
      playbackQueue = [], isPlaying = False, lastPongTime = lastPong,
      totalReceived = 0, totalSent = 0\<rparr>"

definition idleWorld :: playbackWorld where
  "idleWorld = \<lparr>call = activeCall 0, nowPlaying = [], started = [], retryTimers = 0\<rparr>"

text \<open>A running server with no client yet, and the next sequence number, timestamp and SSRC given.\<close>

definition runningServer :: "int \<Rightarrow> int \<Rightarrow> int \<Rightarrow> RtpServer" where
  "runningServer sq ts sc =
     \<lparr>payloadType = 0, socket = True, isRunning = True, clients = Map.empty,
      serverStats = \<lparr>packetsReceived = 0, packetsSent = 0, bytesReceived = 0, bytesSent = 0\<rparr>,
      sequenceNumber = sq, timestamp = ts, ssrc = sc\<rparr>"

definition asterisk :: rinfo where
  "asterisk = \<lparr>address = ''10.0.0.5'', port = 4000\<rparr>"

section \<open>Linear interpolation, as the specification words it\<close>



section \<open>Properties of the codec\<close>

lemma findExponent_large: "4095 < sample \<Longrightarrow> findExponent sample i = 0"
proof (induction sample i rule: findExponent.induct)
  case (1 sample i)
  have "drop_bit i (4095::int) \<le> 4095"
    by (simp add: drop_bit_eq_div) (smt (verit) div_by_1 zdiv_mono2 one_le_power zero_less_power)
  with "1.prems" have nle: "\<not> sample \<le> drop_bit i 4095" by linarith
  show ?case
  proof (cases "i < 8")
    case True
    with nle "1.IH" "1.prems" show ?thesis
      by (subst findExponent.simps) simp
  next
    case False
    then show ?thesis by (subst findExponent.simps) simp
  qed
qed

lemma xor_255_ge:
  assumes "(256::int) \<le> x"
  shows "256 \<le> x XOR 255"
proof -
  have "drop_bit 8 (x XOR 255) = drop_bit 8 x XOR drop_bit 8 (255::int)"
    by (rule drop_bit_xor)
  also have "drop_bit 8 (255::int) = 0" by (simp add: drop_bit_eq_div)
  finally have "(x XOR 255) div 256 = x div 256" by (simp add: drop_bit_eq_div)
  moreover from assms have "1 \<le> x div 256" by simp
  ultimately show ?thesis by linarith
qed

lemma linearToMulawSample_large:
  assumes "- 32768 \<le> s" "s \<le> 32767" "4095 < \<bar>s\<bar> + 132"
  shows "255 < linearToMulawSample s"
proof -
  define a where "a = \<bar>s\<bar> + 132"
  have a: "4095 < a" using assms a_def by simp
  have m: "256 \<le> drop_bit 4 a" using a by (simp add: drop_bit_eq_div)
  have e: "findExponent a 0 = 0" using a by (rule findExponent_large)
  define sign :: int where "sign = (if s < 0 then 128 else 0)"
  have "0 \<le> sign" by (simp add: sign_def)
  then have "drop_bit 4 a \<le> drop_bit 4 a OR sign" by (rule or_greater_eq)
  with m have "256 \<le> sign OR drop_bit 4 a" by (simp add: or.commute)
  then have "256 \<le> (sign OR drop_bit 4 a) XOR 255" by (rule xor_255_ge)
  moreover have "linearToMulawSample s = (sign OR drop_bit 4 a) XOR 255"
    using assms e by (auto simp: linearToMulawSample_def Let_def a_def sign_def abs_if)
  ultimately show ?thesis by simp
qed

lemma readInt16LE_nat:
  "k + 2 \<le> length buf \<Longrightarrow>
   readInt16LE buf (rat_of_nat k) = Inr (toInt16 (uint (buf ! k) + 256 * uint (buf ! (k + 1))))"
  by (simp add: readInt16LE_def)

lemma readInt16LE_sample:
  "2 * i + 2 \<le> length buf \<Longrightarrow> readInt16LE buf (rat_of_nat (i * 2)) = Inr (int16At buf i)"
  using readInt16LE_nat [of "i * 2" buf] by (simp add: int16At_def mult.commute)

text \<open>
  The loop of \<open>linearToMulaw\<close> from round \<open>k\<close> on: it never reads out of range, and it
  stores the encoder's result for each sample, cut to a byte by the store.
\<close>

lemma linearToMulawLoop_from:
  "2 * n \<le> length d \<Longrightarrow> length md = n \<Longrightarrow> k \<le> n \<Longrightarrow>
   linearToMulawLoop d [k..<n] md =
     Inr (take k md @ map (\<lambda>i. word_of_int (linearToMulawSample (int16At d i))) [k..<n])"
proof (induction "n - k" arbitrary: k md)
  case 0
  then show ?case by simp
next
  case (Suc m)
  then have lt: "k < n" by simp
  then have upt: "[k..<n] = k # [Suc k..<n]" by (simp add: upt_conv_Cons)
  from lt Suc.prems have rd: "readInt16LE d (rat_of_nat (k * 2)) = Inr (int16At d k)"
    by (intro readInt16LE_sample) simp
  let ?f = "\<lambda>i. word_of_int (linearToMulawSample (int16At d i)) :: byte"
  let ?md = "md[k := ?f k]"
  have "linearToMulawLoop d [Suc k..<n] ?md = Inr (take (Suc k) ?md @ map ?f [Suc k..<n])"
    using Suc.hyps(2) Suc.prems lt by (intro Suc.hyps(1)) simp_all
  moreover have "take (Suc k) ?md = take k md @ [?f k]"
    using lt Suc.prems by (simp add: take_Suc_conv_app_nth)
  ultimately show ?case using upt rd by simp
qed

lemma linearToMulaw_same_rate:
  "linearToMulaw linearData r r =
     Inr (map (\<lambda>i. word_of_int (linearToMulawSample (int16At linearData i)))
            [0..<length linearData div 2])"
  using linearToMulawLoop_from
    [of "length linearData div 2" linearData "replicate (length linearData div 2) 0" 0]
  by (simp add: linearToMulaw_def)

lemma tableAt_eq:
  assumes "0 \<le> i" "i < 256"
  shows "tableAt i = Some (mulawTableEntry i)"
proof -
  from assms have "nat i < 256" by simp
  then have "[0..<256] ! nat i = nat i" by (simp del: upt_Suc)
  with assms show ?thesis
    by (simp add: tableAt_def MULAW_TO_LINEAR_TABLE_def del: upt_Suc)
qed

lemma replicate_two: "replicate 2 x = [x, x]"
  by (simp add: numeral_2_eq_2)

text \<open>
  C1 (the round trip through encoder and decoder stays within one quantization step): the
  code does not do this. The sample 3963 is encoded as 0 and decoded as -15492; the
  sample 0 comes back as 196; the encoder's result for 10000 is 646, which is no index
  of the table, and the byte that \<open>linearToMulaw\<close> stores for it, 134, is decoded as
  9348 (the bytes 132, 36).
\<close>

theorem roundtrip_far_from_sample:
  "tableAt (linearToMulawSample 3963) = Some (- 15492)
   \<and> tableAt (linearToMulawSample 0) = Some 196
   \<and> tableAt (linearToMulawSample 10000) = None
   \<and> linearToMulaw [16, 39] 8000 8000 = Inr [134]
   \<and> mulawToLinear [134] 8000 8000 = Inr [132, 36]"
proof (intro conjI)
  show "tableAt (linearToMulawSample 3963) = Some (- 15492)"
    by (simp add: linearToMulawSample_def tableAt_eq mulawTableEntry_def toInt16_def)
  show "tableAt (linearToMulawSample 0) = Some 196"
    by (simp add: linearToMulawSample_def tableAt_eq mulawTableEntry_def toInt16_def)
  show "tableAt (linearToMulawSample 10000) = None"
    by (simp add: linearToMulawSample_def tableAt_def)
  show "linearToMulaw [16, 39] 8000 8000 = Inr [134]"
    by (simp add: linearToMulaw_same_rate int16At_def toInt16_def linearToMulawSample_def)
  show "mulawToLinear [134] 8000 8000 = Inr [132, 36]"
    by (simp add: tableAt_eq mulawTableEntry_def toInt16_def mulawToLinear_def
        writeInt16LE_def drop_bit_eq_div replicate_two)
qed

text \<open>
  C10: every 16-bit sample whose magnitude plus the bias 132 exceeds \<open>0xFFF\<close> makes
  \<open>linearToMulawSample\<close> return more than 255 (the sample 10000 gives 646), and
  \<open>linearToMulaw\<close> stores the result of the encoder modulo 256 in its output.
\<close>

theorem linearToMulawSample_exceeds_byte:
  "(\<forall>s. - 32768 \<le> s \<and> s \<le> 32767 \<and> 4095 < \<bar>s\<bar> + 132 \<longrightarrow> 255 < linearToMulawSample s)
   \<and> linearToMulawSample 10000 = 646
   \<and> (\<forall>linearData r i. i < length linearData div 2 \<longrightarrow>
        (\<exists>out. linearToMulaw linearData r r = Inr out
           \<and> length out = length linearData div 2
           \<and> uint (out ! i) = linearToMulawSample (int16At linearData i) mod 256))"
proof (intro conjI allI impI)
  fix s :: int
  assume "- 32768 \<le> s \<and> s \<le> 32767 \<and> 4095 < \<bar>s\<bar> + 132"
  then show "255 < linearToMulawSample s" by (simp add: linearToMulawSample_large)
next
  show "linearToMulawSample 10000 = 646" by (simp add: linearToMulawSample_def)
next
  fix linearData :: buffer and r i :: nat
  assume "i < length linearData div 2"
  then show "\<exists>out. linearToMulaw linearData r r = Inr out
           \<and> length out = length linearData div 2
           \<and> uint (out ! i) = linearToMulawSample (int16At linearData i) mod 256"
    by (simp add: linearToMulaw_same_rate uint_word_of_int take_bit_eq_mod)
qed

theorem linearToMulawSample_exceeds_byte_witness:
  "255 < linearToMulawSample 10000
   \<and> (\<exists>out. linearToMulaw [16, 39] 8000 8000 = Inr out \<and> length out = 1
         \<and> uint (out ! 0) = 646 mod 256)"
proof -
  have s: "- 32768 \<le> (10000::int) \<and> (10000::int) \<le> 32767 \<and> 4095 < \<bar>10000::int\<bar> + 132"
    by simp
  have i: "0 < length [16, 39 :: byte] div 2" by simp
  have v: "int16At [16, 39] 0 = 10000" by (simp add: int16At_def toInt16_def)
  from linearToMulawSample_exceeds_byte s have "255 < linearToMulawSample 10000" by blast
  moreover from linearToMulawSample_exceeds_byte i
  have "\<exists>out. linearToMulaw [16, 39] 8000 8000 = Inr out
           \<and> length out = length [16, 39 :: byte] div 2
           \<and> uint (out ! 0) = linearToMulawSample (int16At [16, 39] 0) mod 256"
    by blast
  moreover have "linearToMulawSample 10000 = 646"
    using linearToMulawSample_exceeds_byte by blast
  ultimately show ?thesis using v by simp
qed

section \<open>Properties of the RTP server\<close>

lemma csrc_header_covers_packet:
  "length packet = 12 \<Longrightarrow> drop (nat (12 + (byteAt packet 0 AND 15) * 4)) packet = []"
proof -
  assume len: "length packet = 12"
  have "0 \<le> byteAt packet 0 AND 15" by simp
  then have "12 \<le> nat (12 + (byteAt packet 0 AND 15) * 4)" by linarith
  with len show ?thesis by simp
qed

text \<open>
  C7: a datagram shorter than 12 bytes emits no event and leaves the server as it was;
  a datagram of exactly 12 bytes emits an \<open>audio-data\<close> event whose payload is empty
  (after the \<open>client-connected\<close> event when the sender is new).
\<close>

theorem handleRtpPacket_short_and_header_only:
  "(length packet < 12 \<longrightarrow> handleRtpPacket packet ri now srv = ([], srv))
   \<and> (length packet = 12 \<longrightarrow>
        (\<exists>pt ts sq mk.
           fst (handleRtpPacket packet ri now srv) =
             (if clients srv (address ri, port ri) = None
              then [ClientConnected (address ri) (port ri)] else [])
             @ [AudioData (address ri, port ri) pt ts sq mk []]))"
proof (intro conjI impI)
  assume "length packet < 12"
  then show "handleRtpPacket packet ri now srv = ([], srv)"
    by (simp add: handleRtpPacket_def)
next
  assume len: "length packet = 12"
  then have "drop (nat (12 + (byteAt packet 0 AND 15) * 4)) packet = []"
    by (rule csrc_header_covers_packet)
  with len show "\<exists>pt ts sq mk.
           fst (handleRtpPacket packet ri now srv) =
             (if clients srv (address ri, port ri) = None
              then [ClientConnected (address ri) (port ri)] else [])
             @ [AudioData (address ri, port ri) pt ts sq mk []]"
    by (simp add: handleRtpPacket_def Let_def)
qed

theorem handleRtpPacket_short_and_header_only_witness:
  "handleRtpPacket [128, 0, 0, 7, 0, 0, 0, 160, 18, 52, 86] asterisk 1000 (runningServer 0 0 0)
     = ([], runningServer 0 0 0)
   \<and> (\<exists>pt ts sq mk.
        fst (handleRtpPacket [128, 0, 0, 7, 0, 0, 0, 160, 18, 52, 86, 120] asterisk 1000
               (runningServer 0 0 0)) =
          [ClientConnected ''10.0.0.5'' 4000, AudioData (''10.0.0.5'', 4000) pt ts sq mk []])"
proof -
  have a: "length [128, 0, 0, 7, 0, 0, 0, 160, 18, 52, 86 :: byte] < 12" by simp
  have b: "length [128, 0, 0, 7, 0, 0, 0, 160, 18, 52, 86, 120 :: byte] = 12" by simp
  from handleRtpPacket_short_and_header_only a
  have "handleRtpPacket [128, 0, 0, 7, 0, 0, 0, 160, 18, 52, 86] asterisk 1000 (runningServer 0 0 0)
          = ([], runningServer 0 0 0)"
    by blast
  moreover from handleRtpPacket_short_and_header_only
    [of "[128, 0, 0, 7, 0, 0, 0, 160, 18, 52, 86, 120]" asterisk 1000 "runningServer 0 0 0"] b
  have "\<exists>pt ts sq mk.
        fst (handleRtpPacket [128, 0, 0, 7, 0, 0, 0, 160, 18, 52, 86, 120] asterisk 1000
               (runningServer 0 0 0)) =
          [ClientConnected ''10.0.0.5'' 4000, AudioData (''10.0.0.5'', 4000) pt ts sq mk []]"
    by (simp add: asterisk_def runningServer_def)
  ultimately show ?thesis by simp
qed

text \<open>
  What \<open>sendAudioData\<close> does to the counters of a running server with a valid target:
  the sequence number advances by one modulo 65536, the SSRC stays, and the timestamp
  advances by the length of the payload modulo \<open>0xFFFFFFFF\<close>.
\<close>

lemma sendAudioData_counters:
  assumes "isRunning srv" "socket srv" "address tg \<noteq> []" "port tg \<noteq> 0"
  shows "\<exists>packet srv'. sendAudioData audioData (Some tg) srv = (True, Some packet, srv')
           \<and> sequenceNumber srv' = (sequenceNumber srv + 1) mod 65536
           \<and> ssrc srv' = ssrc srv
           \<and> timestamp srv' = (timestamp srv + int (length audioData)) mod 4294967295
           \<and> drop 12 packet = audioData"
  using assms by (simp add: sendAudioData_def)

text \<open>
  C6 (the timestamp advances by the payload length modulo \<open>2^32\<close>): the code does not
  do this. From the timestamp 4294967200 a payload of 160 bytes takes the server to the
  timestamp 65, and \<open>(4294967200 + 160) mod 2^32\<close> is 64. The sequence number wraps from
  65535 to 0 and the SSRC stays.
\<close>

theorem sendAudioData_timestamp_wraps_early:
  "(case sendAudioData (replicate 160 255) (Some asterisk)
           (runningServer 65535 4294967200 305419896) of
      (sent, packet, srv') \<Rightarrow>
        sent \<and> map_option (take 12) packet
                 = Some [128, 0, 255, 255, 255, 255, 255, 160, 18, 52, 86, 120]
        \<and> sequenceNumber srv' = 0 \<and> ssrc srv' = 305419896 \<and> timestamp srv' = 65)
   \<and> (4294967200 + 160) mod 2 ^ 32 = (64 :: int)"
  by (simp add: sendAudioData_def runningServer_def asterisk_def headerByte_def toInt32_def
      drop_bit_eq_div)

theorem sendAudioData_timestamp_wraps_early_witness:
  "timestamp (snd (snd (sendAudioData (replicate 160 255) (Some asterisk)
                          (runningServer 65535 4294967200 305419896)))) = 65
   \<and> (65 :: int) \<noteq> (4294967200 + 160) mod 2 ^ 32"
  using sendAudioData_timestamp_wraps_early by (auto split: prod.splits)

section \<open>Properties of the relay towards the voice server\<close>


text \<open>
  C3 as stated (relayed if and only if \<open>connected\<close> and \<open>agentReady\<close> are set) fails:
  with both flags set, a frame with an empty payload is not relayed, and no frame is
  relayed while the socket is not open.
\<close>

theorem onAudioData_flags_not_sufficient:
  "isConnected (activeCall 0) \<and> isAgentReady (activeCall 0)
   \<and> onAudioData [] (activeCall 0) = (activeCall 0, [])
   \<and> onAudioData [255] ((activeCall 0)\<lparr>serverWs := Some CLOSING\<rparr>)
       = ((activeCall 0)\<lparr>serverWs := Some CLOSING\<rparr>, [])"
  by (simp add: onAudioData_def sendAudioToServer_def convertFromMulaw_def activeCall_def)

text \<open>
  C3, amended: a frame is relayed (sent as one binary frame) if and only if
  \<open>connected\<close> and \<open>agentReady\<close> are set, the socket is open and the payload is not
  empty; any other frame is dropped and leaves the \<open>CallState\<close> as it was, so nothing
  of it is kept for later: the run of the events after it is the run without it.
\<close>

theorem onAudioData_gate:
  "snd (onAudioData payload st) =
     (if isConnected st \<and> isAgentReady st \<and> serverWs st = Some OPEN \<and> payload \<noteq> []
      then [WsSendBinary payload] else [])
   \<and> (\<not> (isConnected st \<and> isAgentReady st \<and> serverWs st = Some OPEN \<and> payload \<noteq> [])
        \<longrightarrow> fst (onAudioData payload st) = st
            \<and> runCall (RtpAudio payload # evs) st = runCall evs st)"
  by (simp add: onAudioData_def sendAudioToServer_def convertFromMulaw_def callStep_def)

theorem onAudioData_gate_witness:
  "snd (onAudioData [255] ((activeCall 0)\<lparr>isAgentReady := False\<rparr>)) = []
   \<and> fst (onAudioData [255] ((activeCall 0)\<lparr>isAgentReady := False\<rparr>))
       = (activeCall 0)\<lparr>isAgentReady := False\<rparr>
   \<and> runCall [RtpAudio [255], Message (StatusMsg ''ready'') 10, RtpAudio [127]]
         ((activeCall 0)\<lparr>isAgentReady := False\<rparr>)
       = runCall [Message (StatusMsg ''ready'') 10, RtpAudio [127]]
           ((activeCall 0)\<lparr>isAgentReady := False\<rparr>)
   \<and> snd (runCall [Message (StatusMsg ''ready'') 10, RtpAudio [127]]
              ((activeCall 0)\<lparr>isAgentReady := False\<rparr>))
       = [StartStreaming, WsSendBinary [127]]
   \<and> snd (onAudioData [255] (activeCall 0)) = [WsSendBinary [255]]"
proof -
  have g: "\<not> (isConnected ((activeCall 0)\<lparr>isAgentReady := False\<rparr>)
              \<and> isAgentReady ((activeCall 0)\<lparr>isAgentReady := False\<rparr>)
              \<and> serverWs ((activeCall 0)\<lparr>isAgentReady := False\<rparr>) = Some OPEN
              \<and> [255 :: byte] \<noteq> [])"
    by simp
  note a = onAudioData_gate [of "[255]" "(activeCall 0)\<lparr>isAgentReady := False\<rparr>"
      "[Message (StatusMsg ''ready'') 10, RtpAudio [127]]"]
  from a g have "snd (onAudioData [255] ((activeCall 0)\<lparr>isAgentReady := False\<rparr>)) = []"
    by simp
  moreover from a g have "fst (onAudioData [255] ((activeCall 0)\<lparr>isAgentReady := False\<rparr>))
       = (activeCall 0)\<lparr>isAgentReady := False\<rparr>"
    by blast
  moreover from a g
  have "runCall [RtpAudio [255], Message (StatusMsg ''ready'') 10, RtpAudio [127]]
         ((activeCall 0)\<lparr>isAgentReady := False\<rparr>)
       = runCall [Message (StatusMsg ''ready'') 10, RtpAudio [127]]
           ((activeCall 0)\<lparr>isAgentReady := False\<rparr>)"
    by blast
  moreover have "snd (runCall [Message (StatusMsg ''ready'') 10, RtpAudio [127]]
              ((activeCall 0)\<lparr>isAgentReady := False\<rparr>))
       = [StartStreaming, WsSendBinary [127]]"
    by (simp add: callStep_def handleJsonMessage_def onAudioData_def sendAudioToServer_def
        convertFromMulaw_def activeCall_def)
  moreover have "snd (onAudioData [255] (activeCall 0)) = [WsSendBinary [255]]"
    using onAudioData_gate [of "[255]" "activeCall 0"] by (simp add: activeCall_def)
  ultimately show ?thesis by blast
qed

section \<open>Properties of the heartbeat\<close>

text \<open>
  C4 (one reconnect for one missed pong): the code does not do this. The last pong came
  at time 0. The heartbeat at 20000 reconnects; the new socket opens; its first
  heartbeat, at 25000, sends the first ping on that socket and reconnects again, since
  \<open>lastPongTime\<close> is as it was; and so at 30000. Three sockets are opened and no
  heartbeat passes without a reconnect.
\<close>

theorem heartbeat_reconnects_every_tick:
  "snd (runCall [Tick 5000, Tick 10000, Tick 15000] (activeCall 0))
     = [WsSendText (Ping ''ch-1'' 5000), WsSendText (Ping ''ch-1'' 10000),
        WsSendText (Ping ''ch-1'' 15000)]
   \<and> snd (runCall [Tick 20000, WsOpened, Tick 25000, WsOpened, Tick 30000] (activeCall 0))
     = [WsSendText (Ping ''ch-1'' 20000), WsClose, WsConnect,
        RestartPingInterval, WsSendText (Init ''ch-1''),
        WsSendText (Ping ''ch-1'' 25000), WsClose, WsConnect,
        RestartPingInterval, WsSendText (Init ''ch-1''),
        WsSendText (Ping ''ch-1'' 30000), WsClose, WsConnect]"
  by (simp add: callStep_def pingTick_def reconnectToServer_def connectToServer_def onOpen_def
      activeCall_def)

text \<open>
  The same in general: a heartbeat that reconnects leaves \<open>lastPongTime\<close> as it was, and
  so does the opening of the new socket; the next heartbeat of that socket reconnects
  again.
\<close>

lemma reconnect_repeats_at_next_heartbeat:
  assumes "serverWs st = Some OPEN" "15000 < now - lastPongTime st" "now \<le> now'"
  shows "WsConnect \<in> set (snd (pingTick now st))
     \<and> lastPongTime (fst (onOpen (fst (pingTick now st)))) = lastPongTime st
     \<and> WsConnect \<in> set (snd (pingTick now' (fst (onOpen (fst (pingTick now st))))))"
  using assms
  by (simp add: pingTick_def reconnectToServer_def connectToServer_def onOpen_def)

section \<open>Properties of the playback queue\<close>

text \<open>
  C5 (at most one segment is playing at a time): the code does not do this after a
  failed \<open>channel.play\<close>. The telephony side rejects the file A under both prefixes and
  accepts every other file. A arrives and fails, which clears \<open>isPlaying\<close> and sets the
  retry timer; B arrives before the timer fires and starts playing; C arrives and is
  queued; the timer fires and starts C while B is playing.
\<close>

theorem retry_timer_starts_second_playback:
  "runPlayback (\<lambda>media. media \<noteq> ''sound:A'' \<and> media \<noteq> ''file:A'')
     [AudioChunk ''A'' [1], AudioChunk ''B'' [1], AudioChunk ''C'' [1], RetryTimerFired]
     idleWorld
   = Some \<lparr>call = (activeCall 0)\<lparr>isPlaying := True\<rparr>, nowPlaying = [''B'', ''C''],
           started = [''B'', ''C''], retryTimers = 0\<rparr>"
  by (simp add: playbackStep_def queueAudioPlayback_def playNextInQueue_def onRetryTimer_def
      convertResponseAudioFormat_def idleWorld_def activeCall_def)

text \<open>
  What one call of \<open>playNextInQueue\<close> does to the world: it takes the head of the queue,
  if there is one; a playable head starts playing and sets the flag, another head sets
  a retry timer and clears the flag.
\<close>

lemma playNextInQueue_world:
  assumes "playNextInQueue play st = (st', es)"
  shows "call (absorb es v) = call v
     \<and> playbackQueue st' = drop 1 (playbackQueue st)
     \<and> started (absorb es v) = started v @ filter (playable play) (take 1 (playbackQueue st))
     \<and> nowPlaying (absorb es v)
         = nowPlaying v @ filter (playable play) (take 1 (playbackQueue st))
     \<and> retryTimers (absorb es v)
         = retryTimers v + length (filter (\<lambda>f. \<not> playable play f) (take 1 (playbackQueue st)))
     \<and> isPlaying st' = (filter (playable play) (take 1 (playbackQueue st)) \<noteq> [])"
proof (cases "playbackQueue st")
  case Nil
  with assms show ?thesis by (auto simp: playNextInQueue_def)
next
  case (Cons audioFile rest)
  with assms show ?thesis
    by (auto simp: playNextInQueue_def playable_def Let_def split: if_splits)
qed

lemma arrivals_Cons: "arrivals (ev # evs) = arrivals [ev] @ arrivals evs"
  by (cases ev) simp_all

text \<open>The three events of playback, each as the world it leaves.\<close>

lemma playbackStep_AudioChunk:
  assumes "playbackStep play (AudioChunk tempFile audioData) w = Some w1"
  shows "(audioData = [] \<and> w1 = w)
     \<or> (audioData \<noteq> [] \<and> isPlaying (call w)
          \<and> w1 = w\<lparr>call := (call w)\<lparr>playbackQueue := playbackQueue (call w) @ [tempFile]\<rparr>\<rparr>)
     \<or> (audioData \<noteq> [] \<and> \<not> isPlaying (call w)
          \<and> (\<exists>st' es. playNextInQueue play
                         ((call w)\<lparr>playbackQueue := playbackQueue (call w) @ [tempFile]\<rparr>)
                       = (st', es)
                \<and> w1 = absorb es (w\<lparr>call := st'\<rparr>)))"
proof (cases "audioData = []")
  case True
  with assms show ?thesis by (simp add: playbackStep_def queueAudioPlayback_def)
next
  case False
  show ?thesis
  proof (cases "isPlaying (call w)")
    case True
    with assms False show ?thesis
      by (simp add: playbackStep_def queueAudioPlayback_def)
  next
    case np: False
    obtain st' es where pn: "playNextInQueue play
        ((call w)\<lparr>playbackQueue := playbackQueue (call w) @ [tempFile]\<rparr>) = (st', es)"
      by (cases "playNextInQueue play
        ((call w)\<lparr>playbackQueue := playbackQueue (call w) @ [tempFile]\<rparr>)")
    with assms False np have "w1 = absorb es (w\<lparr>call := st'\<rparr>)"
      by (simp add: playbackStep_def queueAudioPlayback_def)
    with pn False np show ?thesis by simp
  qed
qed

lemma playbackStep_PlaybackFinished:
  assumes "playbackStep play (PlaybackFinished audioFile) w = Some w1"
  shows "audioFile \<in> set (nowPlaying w)
     \<and> (\<exists>st' es. playNextInQueue play (call w) = (st', es)
           \<and> w1 = absorb es (w\<lparr>call := st', nowPlaying := remove1 audioFile (nowPlaying w)\<rparr>))"
  using assms
  by (auto simp: playbackStep_def onPlaybackFinished_def split: prod.splits if_splits)

lemma playbackStep_RetryTimerFired:
  assumes "playbackStep play RetryTimerFired w = Some w1"
  shows "0 < retryTimers w
     \<and> (\<exists>st' es. playNextInQueue play (call w) = (st', es)
           \<and> w1 = absorb es (w\<lparr>call := st', retryTimers := retryTimers w - 1\<rparr>))"
  using assms
  by (auto simp: playbackStep_def onRetryTimer_def split: prod.splits if_splits)

lemma playbackStep_fifo:
  assumes "playbackStep play ev w = Some w1"
  shows "\<exists>k. k \<le> length (playbackQueue (call w) @ arrivals [ev])
           \<and> started w1
               = started w @ filter (playable play) (take k (playbackQueue (call w) @ arrivals [ev]))
           \<and> playbackQueue (call w1) = drop k (playbackQueue (call w) @ arrivals [ev])"
proof -
  let ?q = "playbackQueue (call w)"
  have next_ok: "\<exists>k. k \<le> length (playbackQueue st)
           \<and> started (absorb es v) = started w @ filter (playable play) (take k (playbackQueue st))
           \<and> playbackQueue (call (absorb es v)) = drop k (playbackQueue st)"
    if "playNextInQueue play st = (st', es)" "call v = st'" "started v = started w"
    for st st' es v
  proof -
    from playNextInQueue_world [OF that(1), of v] that(2,3)
    have "playbackQueue (call (absorb es v)) = drop 1 (playbackQueue st)"
      and "started (absorb es v) = started w @ filter (playable play) (take 1 (playbackQueue st))"
      by simp_all
    then have "length (take 1 (playbackQueue st)) \<le> length (playbackQueue st)
           \<and> started (absorb es v)
               = started w @ filter (playable play)
                   (take (length (take 1 (playbackQueue st))) (playbackQueue st))
           \<and> playbackQueue (call (absorb es v))
               = drop (length (take 1 (playbackQueue st))) (playbackQueue st)"
      by (cases "playbackQueue st") simp_all
    then show ?thesis by blast
  qed
  have stay: "\<exists>k. k \<le> length q \<and> s = s @ filter (playable play) (take k q) \<and> q = drop k q"
    for q s :: "string list"
    by (rule exI [of _ 0]) simp
  show ?thesis
  proof (cases ev)
    case (AudioChunk tempFile audioData)
    from playbackStep_AudioChunk [OF assms [unfolded AudioChunk]]
    consider "audioData = []" "w1 = w"
      | "audioData \<noteq> []" "w1 = w\<lparr>call := (call w)\<lparr>playbackQueue := ?q @ [tempFile]\<rparr>\<rparr>"
      | st' es where "audioData \<noteq> []"
          "playNextInQueue play ((call w)\<lparr>playbackQueue := ?q @ [tempFile]\<rparr>) = (st', es)"
          "w1 = absorb es (w\<lparr>call := st'\<rparr>)"
      by blast
    then show ?thesis
    proof cases
      case 1
      with AudioChunk stay [of ?q "started w"] show ?thesis by simp
    next
      case 2
      with AudioChunk stay [of "?q @ [tempFile]" "started w"] show ?thesis by simp
    next
      case 3
      with next_ok [OF 3(2), of "w\<lparr>call := st'\<rparr>"] AudioChunk show ?thesis by simp
    qed
  next
    case (PlaybackFinished audioFile)
    from playbackStep_PlaybackFinished [OF assms [unfolded PlaybackFinished]]
    obtain st' es where pn: "playNextInQueue play (call w) = (st', es)"
      and w1: "w1 = absorb es (w\<lparr>call := st', nowPlaying := remove1 audioFile (nowPlaying w)\<rparr>)"
      by blast
    from next_ok [OF pn, of "w\<lparr>call := st', nowPlaying := remove1 audioFile (nowPlaying w)\<rparr>"]
      PlaybackFinished w1
    show ?thesis by simp
  next
    case RetryTimerFired
    from playbackStep_RetryTimerFired [OF assms [unfolded RetryTimerFired]]
    obtain st' es where pn: "playNextInQueue play (call w) = (st', es)"
      and w1: "w1 = absorb es (w\<lparr>call := st', retryTimers := retryTimers w - 1\<rparr>)"
      by blast
    from next_ok [OF pn, of "w\<lparr>call := st', retryTimers := retryTimers w - 1\<rparr>"]
      RetryTimerFired w1
    show ?thesis by simp
  qed
qed

text \<open>
  First in, first out: in every run, with whatever answers of the telephony side, the
  files started are the playable ones among the first \<open>k\<close> files of the queue and the
  arrivals, in that order, and the queue holds the rest.
\<close>

lemma runPlayback_fifo:
  "runPlayback play evs w = Some w' \<Longrightarrow>
   \<exists>k. k \<le> length (playbackQueue (call w) @ arrivals evs)
      \<and> started w' = started w @ filter (playable play) (take k (playbackQueue (call w) @ arrivals evs))
      \<and> playbackQueue (call w') = drop k (playbackQueue (call w) @ arrivals evs)"
proof (induction evs arbitrary: w)
  case Nil
  then show ?case by (intro exI [of _ 0]) simp
next
  case (Cons ev evs)
  from Cons.prems obtain w1 where s1: "playbackStep play ev w = Some w1"
    and r1: "runPlayback play evs w1 = Some w'"
    by (auto split: option.splits)
  define Q1 where "Q1 = playbackQueue (call w) @ arrivals [ev]"
  define A where "A = arrivals evs"
  from playbackStep_fifo [OF s1] obtain k1 where k1: "k1 \<le> length Q1"
    and st1: "started w1 = started w @ filter (playable play) (take k1 Q1)"
    and q1: "playbackQueue (call w1) = drop k1 Q1"
    unfolding Q1_def by blast
  from Cons.IH [OF r1] q1 obtain k2 where k2: "k2 \<le> length (drop k1 Q1 @ A)"
    and st2: "started w' = started w1 @ filter (playable play) (take k2 (drop k1 Q1 @ A))"
    and q2: "playbackQueue (call w') = drop k2 (drop k1 Q1 @ A)"
    unfolding A_def by auto
  have t1: "take k1 (Q1 @ A) = take k1 Q1" and d1: "drop k1 (Q1 @ A) = drop k1 Q1 @ A"
    using k1 by simp_all
  have "take (k1 + k2) (Q1 @ A) = take k1 (Q1 @ A) @ take k2 (drop k1 (Q1 @ A))"
    by (rule take_add)
  then have tk: "take (k1 + k2) (Q1 @ A) = take k1 Q1 @ take k2 (drop k1 Q1 @ A)"
    by (simp only: t1 d1)
  have "drop (k1 + k2) (Q1 @ A) = drop k2 (drop k1 (Q1 @ A))"
    by (simp only: drop_drop add.commute)
  then have dr: "drop (k1 + k2) (Q1 @ A) = drop k2 (drop k1 Q1 @ A)"
    by (simp only: d1)
  have all: "playbackQueue (call w) @ arrivals (ev # evs) = Q1 @ A"
    using arrivals_Cons [of ev evs] by (simp add: Q1_def A_def)
  have "k1 + k2 \<le> length (Q1 @ A)" using k1 k2 by simp
  moreover have "started w' = started w @ filter (playable play) (take (k1 + k2) (Q1 @ A))"
    unfolding tk using st1 st2 by simp
  moreover have "playbackQueue (call w') = drop (k1 + k2) (Q1 @ A)"
    unfolding dr using q2 by simp
  ultimately show ?case unfolding all by blast
qed

text \<open>
  One at a time, when no \<open>channel.play\<close> fails: then no retry timer is ever set, and along
  every run either one file is playing and the flag is set, or none is playing, the
  flag is clear and the queue is empty.
\<close>

lemma playbackStep_exclusive:
  assumes ok: "\<And>f. playable play f"
    and inv: "retryTimers w = 0
       \<and> (if isPlaying (call w) then length (nowPlaying w) = 1
           else nowPlaying w = [] \<and> playbackQueue (call w) = [])"
    and step: "playbackStep play ev w = Some w1"
  shows "retryTimers w1 = 0
       \<and> (if isPlaying (call w1) then length (nowPlaying w1) = 1
           else nowPlaying w1 = [] \<and> playbackQueue (call w1) = [])"
proof -
  have all: "filter (playable play) xs = xs" "filter (\<lambda>f. \<not> playable play f) xs = []" for xs
    using ok by simp_all
  show ?thesis
  proof (cases ev)
    case (AudioChunk tempFile audioData)
    let ?st = "(call w)\<lparr>playbackQueue := playbackQueue (call w) @ [tempFile]\<rparr>"
    from playbackStep_AudioChunk [OF step [unfolded AudioChunk]]
    consider "w1 = w"
      | "isPlaying (call w)" "w1 = w\<lparr>call := ?st\<rparr>"
      | st' es where "\<not> isPlaying (call w)" "playNextInQueue play ?st = (st', es)"
          "w1 = absorb es (w\<lparr>call := st'\<rparr>)"
      by blast
    then show ?thesis
    proof cases
      case 1
      with inv show ?thesis by simp
    next
      case 2
      with inv show ?thesis by simp
    next
      case 3
      from inv 3(1) have "playbackQueue (call w) = []" "nowPlaying w = []" by simp_all
      with playNextInQueue_world [OF 3(2), of "w\<lparr>call := st'\<rparr>"] inv show ?thesis
        unfolding 3(3) by (simp add: all)
    qed
  next
    case (PlaybackFinished audioFile)
    from playbackStep_PlaybackFinished [OF step [unfolded PlaybackFinished]]
    obtain st' es where mem: "audioFile \<in> set (nowPlaying w)"
      and pn: "playNextInQueue play (call w) = (st', es)"
      and w1: "w1 = absorb es (w\<lparr>call := st', nowPlaying := remove1 audioFile (nowPlaying w)\<rparr>)"
      by blast
    from mem inv have one: "nowPlaying w = [audioFile]"
      by (cases "nowPlaying w") (auto split: if_splits)
    from playNextInQueue_world
      [OF pn, of "w\<lparr>call := st', nowPlaying := remove1 audioFile (nowPlaying w)\<rparr>"] inv one
    show ?thesis
      unfolding w1 by (cases "playbackQueue (call w)") (simp_all add: all ok)
  next
    case RetryTimerFired
    with step inv show ?thesis by (simp add: playbackStep_def)
  qed
qed

lemma runPlayback_exclusive:
  assumes ok: "\<And>f. playable play f"
  shows "retryTimers w = 0
       \<and> (if isPlaying (call w) then length (nowPlaying w) = 1
           else nowPlaying w = [] \<and> playbackQueue (call w) = [])
     \<Longrightarrow> runPlayback play evs w = Some w' \<Longrightarrow> length (nowPlaying w') \<le> 1"
proof (induction evs arbitrary: w)
  case Nil
  then show ?case by (auto split: if_splits)
next
  case (Cons ev evs)
  from Cons.prems(2) obtain w1 where s1: "playbackStep play ev w = Some w1"
    and r1: "runPlayback play evs w1 = Some w'"
    by (auto split: option.splits)
  from playbackStep_exclusive [of play w ev w1, OF ok Cons.prems(1) s1] r1
  show ?case by (rule Cons.IH)
qed


lemma playback_order_is_arrival_order:
  assumes "runPlayback play evs idleWorld = Some w"
  shows "\<exists>k. started w = filter (playable play) (take k (arrivals evs))
           \<and> playbackQueue (call w) = drop k (arrivals evs)"
  using runPlayback_fifo [OF assms] by (auto simp: idleWorld_def activeCall_def)

lemma one_playing_without_failure:
  assumes ok: "\<And>f. playable play f" and run: "runPlayback play evs idleWorld = Some w"
  shows "length (nowPlaying w) \<le> 1"
proof -
  have "retryTimers idleWorld = 0
       \<and> (if isPlaying (call idleWorld) then length (nowPlaying idleWorld) = 1
           else nowPlaying idleWorld = [] \<and> playbackQueue (call idleWorld) = [])"
    by (simp add: idleWorld_def activeCall_def)
  from runPlayback_exclusive [of play idleWorld evs w, OF ok this run] show ?thesis .
qed

section \<open>Properties of the message handlers\<close>

lemma isLikelyTextLoop_iff:
  "isLikelyTextLoop buf n \<longleftrightarrow>
     (\<forall>b \<in> set (take n buf). (32 \<le> b \<and> b \<le> 126) \<or> b = 9 \<or> b = 10 \<or> b = 13)"
proof (induction buf arbitrary: n)
  case Nil
  then show ?case by simp
next
  case (Cons b rest)
  show ?case
  proof (cases n)
    case 0
    then show ?thesis by simp
  next
    case (Suc m)
    have "\<not> ((b < 32 \<and> b \<noteq> 9 \<and> b \<noteq> 10 \<and> b \<noteq> 13) \<or> b > 126)
            \<longleftrightarrow> ((32 \<le> b \<and> b \<le> 126) \<or> b = 9 \<or> b = 10 \<or> b = 13)"
      by (auto simp: not_less)
    with Suc Cons.IH [of m] show ?thesis by auto
  qed
qed

lemma handleJsonMessage_keeps_queue:
  "playbackQueue (fst (handleJsonMessage m now st)) = playbackQueue st
   \<and> (\<forall>name d. WriteFile name d \<notin> set (snd (handleJsonMessage m now st)))"
proof (cases m)
  case (ActionsMsg actions)
  have "\<forall>name d. WriteFile name d \<notin> set (sendActionResponse a b st)" for a b
    by (simp add: sendActionResponse_def)
  then show ?thesis using ActionsMsg
    by (auto simp: handleJsonMessage_def split: if_splits)
qed (simp_all add: handleJsonMessage_def)

lemma queueAudioPlayback_writes:
  "audioData \<noteq> [] \<Longrightarrow>
   WriteFile tempFile (convertResponseAudioFormat audioData)
     \<in> set (snd (queueAudioPlayback play tempFile audioData st))"
  by (simp add: queueAudioPlayback_def Let_def split: prod.splits)

text \<open>
  C9 as stated (text if and only if the first byte is \<open>0x7B\<close>, on every socket) fails on
  the socket of the call: the buffer \<open>abc\<close> does not start with \<open>0x7B\<close> and is taken for
  text (it does not parse, and nothing is queued), and the buffer \<open>0x7B 0xFF\<close> starts
  with \<open>0x7B\<close> and is queued for playback.
\<close>

theorem first_byte_does_not_decide_on_call_socket:
  "onServerMessage (\<lambda>b. None) (\<lambda>media. True) ''f'' 0 (Binary [97, 98, 99]) (activeCall 0)
     = (activeCall 0, [])
   \<and> onServerMessage (\<lambda>b. None) (\<lambda>media. True) ''f'' 0 (Binary [123, 255]) (activeCall 0)
     = ((activeCall 0)\<lparr>isPlaying := True\<rparr>,
        [WriteFile ''f'' [123, 255], ChannelPlay ''sound:'' ''f''])"
  by (simp add: onServerMessage_def isLikelyText_def queueAudioPlayback_def
      playNextInQueue_def convertResponseAudioFormat_def activeCall_def)

text \<open>
  C9, amended. In \<open>server.js\<close> a binary buffer is taken for a JSON text message if and
  only if its first byte is \<open>0x7B\<close>; every other buffer, the empty one too, is counted as
  audio and forwarded to the agent when the agent connection is configured, and
  answered with \<open>not_ready\<close> otherwise. On the socket of the call
  (\<open>asterisk-bridge.js\<close>) a binary buffer is taken for text if and only if each of its
  first 100 bytes is printable ASCII (32 to 126), a tab, a line feed or a carriage
  return: such a buffer is parsed and never queued; every other buffer is queued for
  playback.
\<close>

theorem binary_message_classification:
  "onClientMessage parse (Binary message) c =
     (if \<exists>rest. message = 123 # rest
      then (case parse message of
              None \<Rightarrow> (c, [LogParseError])
            | Some cmd \<Rightarrow>
                (storeChannelId cmd c,
                 [if commandType cmd = ''action_response'' then HandleActionResponse cmd
                  else HandleCommand cmd]))
      else (c, [TrackAudio (length message),
                if deepgramConnection c \<and> isConfigured c then DeepgramSend message
                else SendNotReady]))
   \<and> (isLikelyText buf \<longleftrightarrow>
        (\<forall>b \<in> set (take 100 buf). (32 \<le> b \<and> b \<le> 126) \<or> b = 9 \<or> b = 10 \<or> b = 13))
   \<and> (isLikelyText buf \<longrightarrow>
        onServerMessage parse' play tempFile now (Binary buf) st
          = (case parse' buf of
               Some m \<Rightarrow> handleJsonMessage m now st
             | None \<Rightarrow> (st, []))
        \<and> playbackQueue (fst (onServerMessage parse' play tempFile now (Binary buf) st))
            = playbackQueue st
        \<and> (\<forall>name d. WriteFile name d
              \<notin> set (snd (onServerMessage parse' play tempFile now (Binary buf) st))))
   \<and> (\<not> isLikelyText buf \<longrightarrow>
        onServerMessage parse' play tempFile now (Binary buf) st
          = queueAudioPlayback play tempFile buf st
        \<and> WriteFile tempFile (convertResponseAudioFormat buf)
            \<in> set (snd (onServerMessage parse' play tempFile now (Binary buf) st)))"
proof (intro conjI impI)
  show "onClientMessage parse (Binary message) c =
     (if \<exists>rest. message = 123 # rest
      then (case parse message of
              None \<Rightarrow> (c, [LogParseError])
            | Some cmd \<Rightarrow>
                (storeChannelId cmd c,
                 [if commandType cmd = ''action_response'' then HandleActionResponse cmd
                  else HandleCommand cmd]))
      else (c, [TrackAudio (length message),
                if deepgramConnection c \<and> isConfigured c then DeepgramSend message
                else SendNotReady]))"
    by (cases message) (auto simp: onClientMessage_def split: option.splits)
next
  show "isLikelyText buf \<longleftrightarrow>
        (\<forall>b \<in> set (take 100 buf). (32 \<le> b \<and> b \<le> 126) \<or> b = 9 \<or> b = 10 \<or> b = 13)"
    unfolding isLikelyText_def by (rule isLikelyTextLoop_iff)
next
  assume t: "isLikelyText buf"
  then show eq: "onServerMessage parse' play tempFile now (Binary buf) st
          = (case parse' buf of
               Some m \<Rightarrow> handleJsonMessage m now st
             | None \<Rightarrow> (st, []))"
    by (simp add: onServerMessage_def)
  show "playbackQueue (fst (onServerMessage parse' play tempFile now (Binary buf) st))
            = playbackQueue st"
    unfolding eq by (simp add: handleJsonMessage_keeps_queue split: option.splits)
  show "\<forall>name d. WriteFile name d
              \<notin> set (snd (onServerMessage parse' play tempFile now (Binary buf) st))"
    unfolding eq by (simp add: handleJsonMessage_keeps_queue split: option.splits)
next
  assume n: "\<not> isLikelyText buf"
  then show eq: "onServerMessage parse' play tempFile now (Binary buf) st
          = queueAudioPlayback play tempFile buf st"
    by (simp add: onServerMessage_def)
  from n have "buf \<noteq> []" by (auto simp: isLikelyText_def)
  then show "WriteFile tempFile (convertResponseAudioFormat buf)
            \<in> set (snd (onServerMessage parse' play tempFile now (Binary buf) st))"
    unfolding eq by (rule queueAudioPlayback_writes)
qed

theorem binary_message_classification_witness:
  "isLikelyText [97, 98, 99] \<and> \<not> isLikelyText [123, 255]
   \<and> playbackQueue (fst (onServerMessage (\<lambda>b. None) (\<lambda>media. True) ''f'' 0
                            (Binary [97, 98, 99]) (activeCall 0))) = []
   \<and> WriteFile ''f'' [123, 255]
       \<in> set (snd (onServerMessage (\<lambda>b. None) (\<lambda>media. True) ''f'' 0
                      (Binary [123, 255]) (activeCall 0)))
   \<and> onClientMessage (\<lambda>b. None) (Binary [123, 255])
        \<lparr>isAsteriskBridge = True, deepgramConnection = True, isConfigured = True,
         connChannelId = None\<rparr>
       = (\<lparr>isAsteriskBridge = True, deepgramConnection = True, isConfigured = True,
           connChannelId = None\<rparr>, [LogParseError])
   \<and> onClientMessage (\<lambda>b. None) (Binary [97, 98, 99])
        \<lparr>isAsteriskBridge = True, deepgramConnection = True, isConfigured = True,
         connChannelId = None\<rparr>
       = (\<lparr>isAsteriskBridge = True, deepgramConnection = True, isConfigured = True,
           connChannelId = None\<rparr>, [TrackAudio 3, DeepgramSend [97, 98, 99]])"
proof -
  have t: "isLikelyText [97, 98, 99]" by (simp add: isLikelyText_def)
  have n: "\<not> isLikelyText [123, 255]" by (simp add: isLikelyText_def)
  note a = binary_message_classification
    [of "\<lambda>b. None" "[123, 255]" _ "[97, 98, 99]" "\<lambda>b. None" "\<lambda>media. True" "''f''" 0 "activeCall 0"]
  note b = binary_message_classification
    [of "\<lambda>b. None" "[97, 98, 99]" _ "[123, 255]" "\<lambda>b. None" "\<lambda>media. True" "''f''" 0 "activeCall 0"]
  from a t have "playbackQueue (fst (onServerMessage (\<lambda>b. None) (\<lambda>media. True) ''f'' 0
                            (Binary [97, 98, 99]) (activeCall 0))) = playbackQueue (activeCall 0)"
    by blast
  moreover from b n have "WriteFile ''f'' (convertResponseAudioFormat [123, 255])
       \<in> set (snd (onServerMessage (\<lambda>b. None) (\<lambda>media. True) ''f'' 0
                      (Binary [123, 255]) (activeCall 0)))"
    by blast
  moreover from a have "onClientMessage (\<lambda>b. None) (Binary [123, 255])
        \<lparr>isAsteriskBridge = True, deepgramConnection = True, isConfigured = True,
         connChannelId = None\<rparr>
       = (\<lparr>isAsteriskBridge = True, deepgramConnection = True, isConfigured = True,
           connChannelId = None\<rparr>, [LogParseError])"
    by simp
  moreover from b have "onClientMessage (\<lambda>b. None) (Binary [97, 98, 99])
        \<lparr>isAsteriskBridge = True, deepgramConnection = True, isConfigured = True,
         connChannelId = None\<rparr>
       = (\<lparr>isAsteriskBridge = True, deepgramConnection = True, isConfigured = True,
           connChannelId = None\<rparr>, [TrackAudio 3, DeepgramSend [97, 98, 99]])"
    by simp
  ultimately show ?thesis using t n
    by (simp add: activeCall_def convertResponseAudioFormat_def)
qed

section \<open>Properties of the resampler\<close>


lemma toInt16_id: "- 32768 \<le> v \<Longrightarrow> v \<le> 32767 \<Longrightarrow> toInt16 v = v"
  by (simp add: toInt16_def)















end
